theory Spec2Isabelle
  imports Main "HOL-Library.AList"
begin

section \<open>Python, numpy and gym values used by \<open>complex_env.py\<close>\<close>

text \<open>
  The environment keeps a two-dimensional integer array (a list of rows), a float reward
  and dictionaries from strings to numbers. Rewards and dictionary values are kept
  abstract: any type with a \<open>0\<close> and a \<open>+\<close>, of which no law is assumed, so that every
  result below also holds for floating-point addition, which is not associative. A sum
  of rewards is therefore always the running sum \<open>foldl (+) 0\<close>, taken in the order in
  which the code adds.

  A \<open>dict\<close> is an association list in insertion order; its keys are distinct.
  \<open>GymError\<close> is the exception \<open>gym.error.Error\<close>.
\<close>

datatype py_error = IndexError | OverflowError | ValueError | GymError

type_synonym ndarray = "int list list"

type_synonym 'v dict = "(string \<times> 'v) list"

text \<open>
  The external scoring function \<open>calc_reward(trajectory, upto)\<close> of module \<open>reward\<close>, and
  the external \<open>convert_observation_to_midi_sequence\<close> of \<open>midi.midi_writer\<close>, are
  parameters of the model.
\<close>

type_synonym ('r, 'v) calc_reward = "ndarray \<Rightarrow> nat \<Rightarrow> 'r \<times> 'v dict"

type_synonym 'm midi_encoder = "ndarray \<Rightarrow> 'm"

text \<open>\<open>np.zeros((n, p), dtype='int')\<close>.\<close>

definition np_zeros :: "nat \<Rightarrow> nat \<Rightarrow> ndarray" where
  "np_zeros n p = replicate n (replicate p 0)"

text \<open>
  \<open>arr[i] = value\<close> on an array of \<open>ncols\<close> columns of 64-bit integers, \<open>i\<close> not negative:
  an index past the last row raises \<open>IndexError\<close>, an element that does not fit the
  element type raises \<open>OverflowError\<close>, a value of one element is broadcast over the
  row, and any other length than \<open>ncols\<close> raises \<open>ValueError\<close>.
\<close>

definition fits_int64 :: "int \<Rightarrow> bool" where
  "fits_int64 x \<longleftrightarrow> - (2 ^ 63) \<le> x \<and> x < 2 ^ 63"

definition setitem_row :: "nat \<Rightarrow> ndarray \<Rightarrow> nat \<Rightarrow> int list \<Rightarrow> py_error + ndarray" where
  "setitem_row ncols arr i val =
     (if length arr \<le> i then Inl IndexError
      else if \<not> list_all fits_int64 val then Inl OverflowError
      else if length val = ncols then Inr (arr[i := val])
      else if length val = 1 then Inr (arr[i := replicate ncols (hd val)])
      else Inl ValueError)"

text \<open>\<open>d.get(k, dflt)\<close> and \<open>d[k] = v\<close> on a plain \<open>dict\<close>.\<close>

definition dict_get :: "'v dict \<Rightarrow> string \<Rightarrow> 'v \<Rightarrow> 'v" where
  "dict_get d k dflt = (case map_of d k of None \<Rightarrow> dflt | Some v \<Rightarrow> v)"

definition dict_setitem :: "'v dict \<Rightarrow> string \<Rightarrow> 'v \<Rightarrow> 'v dict" where
  "dict_setitem d k v = AList.update k v d"

text \<open>
  \<open>d[k]\<close> on a \<open>defaultdict(int)\<close>: a missing key is first inserted with the value
  \<open>int() = 0\<close>. The updated dictionary is returned with the value read.
\<close>

definition defaultdict_getitem :: "('v::zero) dict \<Rightarrow> string \<Rightarrow> 'v dict \<times> 'v" where
  "defaultdict_getitem d k =
     (case map_of d k of
        None \<Rightarrow> (dict_setitem d k 0, 0)
      | Some v \<Rightarrow> (d, v))"

text \<open>\<open>d[k] += v\<close> on a \<open>defaultdict(int)\<close>: read, add, store.\<close>

definition defaultdict_iadd :: "('v::{zero,plus}) dict \<Rightarrow> string \<Rightarrow> 'v \<Rightarrow> 'v dict" where
  "defaultdict_iadd d k v =
     (case defaultdict_getitem d k of (d1, old) \<Rightarrow> dict_setitem d1 k (old + v))"

text \<open>
  \<open>spaces.Box(low, high, shape, dtype=int)\<close> of gym: the product of the closed intervals
  \<open>low \<le> x \<le> high\<close>, one for each element of an array of the given shape. Its membership
  test \<open>contains\<close> compares the shape and checks \<open>low \<le> x\<close> and \<open>x \<le> high\<close> at every
  element.
\<close>

record box =
  low :: int
  high :: int
  shape :: "nat list"

definition box_contains_vector :: "box \<Rightarrow> int list \<Rightarrow> bool" where
  "box_contains_vector b a \<longleftrightarrow>
     shape b = [length a] \<and> list_all (\<lambda>x. low b \<le> x \<and> x \<le> high b) a"

definition box_contains_matrix :: "box \<Rightarrow> ndarray \<Rightarrow> bool" where
  "box_contains_matrix b m \<longleftrightarrow>
     (case shape b of
        [n, p] \<Rightarrow> length m = n \<and>
          list_all (\<lambda>row. length row = p \<and> list_all (\<lambda>x. low b \<le> x \<and> x \<le> high b) row) m
      | _ \<Rightarrow> False)"

subsection \<open>Wall-clock time and file names\<close>

text \<open>
  \<open>time.localtime()\<close> is an input of the model: the fields of the broken-down local time
  that the format strings read, and the seconds since the epoch of the same instant,
  which is what the C library's \<open>strftime\<close> writes for the directive \<open>%s\<close>.
\<close>

record struct_time =
  tm_year :: nat
  tm_mon :: nat
  tm_mday :: nat
  tm_hour :: nat
  tm_min :: nat
  epoch_seconds :: nat

definition digit :: "nat \<Rightarrow> char" where
  "digit d = ''0123456789'' ! (d mod 10)"

definition two_digits :: "nat \<Rightarrow> string" where
  "two_digits n = [digit (n div 10), digit n]"

fun decimal :: "nat \<Rightarrow> string" where
  "decimal n = (if n < 10 then [digit n] else decimal (n div 10) @ [digit n])"

definition directive :: "char \<Rightarrow> struct_time \<Rightarrow> string" where
  "directive c t =
     (if c = CHR ''m'' then two_digits (tm_mon t)
      else if c = CHR ''d'' then two_digits (tm_mday t)
      else if c = CHR ''y'' then two_digits (tm_year t mod 100)
      else if c = CHR ''H'' then two_digits (tm_hour t)
      else if c = CHR ''M'' then two_digits (tm_min t)
      else if c = CHR ''s'' then decimal (epoch_seconds t)
      else [CHR ''%'', c])"

fun strftime :: "string \<Rightarrow> struct_time \<Rightarrow> string" where
  "strftime (c # d # fmt) t =
     (if c = CHR ''%'' then directive d t @ strftime fmt t else c # strftime (d # fmt) t)"
| "strftime [c] t = [c]"
| "strftime [] t = []"

text \<open>\<open>os.path.join(a, b)\<close> on a POSIX system.\<close>

definition path_join :: "string \<Rightarrow> string \<Rightarrow> string" where
  "path_join a b =
     (if b \<noteq> [] \<and> hd b = CHR ''/'' then b
      else if a = [] \<or> last a = CHR ''/'' then a @ b
      else a @ ''/'' @ b)"

section \<open>The environment \<open>RoboNotesComplexEnv\<close>\<close>

text \<open>
  The fields that \<open>__init__\<close> assigns, and \<open>np_random\<close>, the random generator of the base
  class \<open>gym.Env\<close>: absent until a call of \<open>reset\<close> seeds it, then given by its seed.
\<close>

record ('r, 'v) env =
  action_space :: box
  observation_space :: box
  max_trajectory_len :: nat
  num_pitches :: nat
  midi_savedir :: "string option"
  obs_trajectory :: ndarray
  trajectory_idx :: nat
  total_reward :: 'r
  partial_rewards :: "'v dict"
  np_random :: "int option"

text \<open>What \<open>step\<close> returns: \<open>(observation, reward, terminated, truncated, info)\<close>.\<close>

record ('r, 'v) step_result =
  res_observation :: ndarray
  res_reward :: 'r
  res_terminated :: bool
  res_truncated :: bool
  res_info :: "'v dict"

text \<open>\<open>get_initial_ob\<close> reads the two configuration fields of \<open>self\<close>.\<close>

definition get_initial_ob :: "nat \<Rightarrow> nat \<Rightarrow> ndarray" where
  "get_initial_ob max_len pitches = np_zeros max_len pitches"

text \<open>
  \<open>__init__\<close>. The lengths are natural numbers: \<open>np.zeros\<close> refuses a negative dimension,
  so no environment exists with one.
\<close>

definition init :: "nat \<Rightarrow> nat \<Rightarrow> string option \<Rightarrow> ('r::zero, 'v) env" where
  "init max_len pitches savedir =
     \<lparr> action_space = \<lparr> low = 0, high = 37, shape = [pitches] \<rparr>,
       observation_space = \<lparr> low = 0, high = 37, shape = [max_len, pitches] \<rparr>,
       max_trajectory_len = max_len,
       num_pitches = pitches,
       midi_savedir = savedir,
       obs_trajectory = get_initial_ob max_len pitches,
       trajectory_idx = 0,
       total_reward = 0,
       partial_rewards = [],
       np_random = None \<rparr>"

text \<open>
  \<open>gym.Env.reset(seed=seed)\<close>, the method of the base class that \<open>reset\<close> calls first: with a
  seed it seeds the random generator, and \<open>gym.utils.seeding.np_random\<close> raises
  \<open>gym.error.Error\<close> for a seed that is not a non-negative integer; with no seed it does
  nothing.
\<close>

definition gym_env_reset :: "int option \<Rightarrow> ('r, 'v) env \<Rightarrow> py_error + ('r, 'v) env" where
  "gym_env_reset seed s =
     (case seed of
        None \<Rightarrow> Inr s
      | Some sd \<Rightarrow> if 0 \<le> sd then Inr (s\<lparr> np_random := Some sd \<rparr>) else Inl GymError)"

text \<open>
  \<open>reset(seed, options)\<close> returns the new state with \<open>(observation, info)\<close>, or the
  exception that the base class raised, before any field was assigned. \<open>options\<close> is not
  read.
\<close>

definition reset ::
  "int option \<Rightarrow> ('r::zero, 'v) env \<Rightarrow> py_error + (('r, 'v) env \<times> (ndarray \<times> 'v dict))" where
  "reset seed s =
     (case gym_env_reset seed s of
        Inl e \<Rightarrow> Inl e
      | Inr s0 \<Rightarrow>
          (let s1 = s0\<lparr> obs_trajectory :=
                         get_initial_ob (max_trajectory_len s0) (num_pitches s0) \<rparr>;
               s2 = s1\<lparr> total_reward := 0 \<rparr>;
               s3 = s2\<lparr> trajectory_idx := 0 \<rparr>;
               s4 = s3\<lparr> partial_rewards := [] \<rparr>
           in Inr (s4, (obs_trajectory s4, []))))"

text \<open>The loop \<open>for k, v in info.items(): self.partial_rewards[k] += v\<close> of \<open>step\<close>.\<close>

definition ledger_add :: "('v::{zero,plus}) dict \<Rightarrow> 'v dict \<Rightarrow> 'v dict" where
  "ledger_add info ledger = fold (\<lambda>(k, v) d. defaultdict_iadd d k v) info ledger"

text \<open>
  \<open>step\<close> returns the new state with its five results, or the exception raised. The row
  assignment is the only statement of \<open>step\<close> itself that can raise; the array it
  assigns to was allocated by \<open>get_initial_ob\<close> with \<open>num_pitches\<close> columns.
\<close>

definition step ::
  "('r::{zero,plus}, 'v::{zero,plus}) calc_reward \<Rightarrow> ('r, 'v) env \<Rightarrow> int list \<Rightarrow>
     py_error + (('r, 'v) env \<times> ('r, 'v) step_result)" where
  "step calc s action =
     (case setitem_row (num_pitches s) (obs_trajectory s) (trajectory_idx s) action of
        Inl e \<Rightarrow> Inl e
      | Inr arr \<Rightarrow>
          (let s1 = s\<lparr> obs_trajectory := arr \<rparr>;
               s2 = s1\<lparr> trajectory_idx := trajectory_idx s1 + 1 \<rparr>;
               (reward, info) = calc (obs_trajectory s2) (trajectory_idx s2);
               s3 = s2\<lparr> total_reward := total_reward s2 + reward \<rparr>;
               terminated = (trajectory_idx s3 \<ge> max_trajectory_len s3);
               truncated = False;
               s4 = s3\<lparr> partial_rewards := ledger_add info (partial_rewards s3) \<rparr>
           in Inr (s4, \<lparr> res_observation = obs_trajectory s4, res_reward = reward,
                         res_terminated = terminated, res_truncated = truncated,
                         res_info = info \<rparr>)))"

text \<open>
  The inner loop \<open>for k in info: total_info[k] = total_info.get(k, 0) + info[k]\<close> of
  the static \<open>save_midi\<close>, where \<open>info[k]\<close> is the value paired with \<open>k\<close>.
\<close>

definition merge_info :: "('v::{zero,plus}) dict \<Rightarrow> 'v dict \<Rightarrow> 'v dict" where
  "merge_info info total_info =
     fold (\<lambda>(k, v) d. dict_setitem d k (dict_get d k 0 + v)) info total_info"

text \<open>The outer loop \<open>for t in range(1, len(trajectory))\<close> of \<open>save_midi\<close>.\<close>

definition save_midi_totals ::
  "('r::{zero,plus}, 'v::{zero,plus}) calc_reward \<Rightarrow> ndarray \<Rightarrow> 'r \<times> 'v dict" where
  "save_midi_totals calc trajectory =
     fold (\<lambda>t (total_reward, total_info).
             (case calc trajectory t of (reward, info) \<Rightarrow>
                (total_reward + reward, merge_info info total_info)))
          [1..<length trajectory] (0, [])"

text \<open>
  What \<open>save_midi\<close> and \<open>render\<close> do to the outside: the four items printed, and the calls
  of the external \<open>convert_to_midi_file(midi_sequence, path)\<close>.
\<close>

record ('r, 'v, 'm) effects =
  printed_reward :: 'r
  printed_info :: "'v dict"
  printed_trajectory :: ndarray
  printed_midi :: 'm
  files_written :: "(string \<times> 'm) list"

definition save_midi ::
  "('r::{zero,plus}, 'v::{zero,plus}) calc_reward \<Rightarrow> 'm midi_encoder \<Rightarrow> struct_time \<Rightarrow>
     ndarray \<Rightarrow> string option \<Rightarrow> ('r, 'v, 'm) effects" where
  "save_midi calc encode now trajectory savedir =
     (let render_trajectory = trajectory;
          midi_sequence = encode render_trajectory;
          (total_reward, total_info) = save_midi_totals calc trajectory
      in \<lparr> printed_reward = total_reward, printed_info = total_info,
           printed_trajectory = render_trajectory, printed_midi = midi_sequence,
           files_written =
             (case savedir of
                None \<Rightarrow> []
              | Some dir \<Rightarrow>
                  if dir = [] then []
                  else (let timestamp = strftime ''%m-%d-%y_%H%M'' now;
                            fname = ''ts'' @ timestamp @ ''_ep''
                                    @ decimal (length render_trajectory) @ ''.midi''
                        in [(path_join dir fname, midi_sequence)])) \<rparr>)"

text \<open>\<open>render\<close> returns the state it leaves with what it printed and wrote.\<close>

definition render ::
  "'m midi_encoder \<Rightarrow> struct_time \<Rightarrow> string \<Rightarrow> ('r, 'v) env \<Rightarrow>
     ('r, 'v) env \<times> ('r, 'v, 'm) effects" where
  "render encode now mode s =
     (let render_trajectory = obs_trajectory s;
          midi_sequence = encode render_trajectory
      in (s, \<lparr> printed_reward = total_reward s, printed_info = partial_rewards s,
               printed_trajectory = render_trajectory, printed_midi = midi_sequence,
               files_written =
                 (case midi_savedir s of
                    None \<Rightarrow> []
                  | Some dir \<Rightarrow>
                      if dir = [] then []
                      else (let timestamp = strftime ''%m-%d-%y_%H%M%s'' now;
                                fname = ''ts'' @ timestamp @ ''_ep''
                                        @ decimal (length render_trajectory) @ ''.midi''
                            in [(path_join dir fname, midi_sequence)])) \<rparr>))"

text \<open>An episode: successive calls of \<open>step\<close>, stopping at the first exception.\<close>

fun run_steps ::
  "('r::{zero,plus}, 'v::{zero,plus}) calc_reward \<Rightarrow> ('r, 'v) env \<Rightarrow> int list list \<Rightarrow>
     py_error + (('r, 'v) env \<times> ('r, 'v) step_result list)" where
  "run_steps calc s [] = Inr (s, [])"
| "run_steps calc s (a # as) =
     (case step calc s a of
        Inl e \<Rightarrow> Inl e
      | Inr (s1, r) \<Rightarrow>
          (case run_steps calc s1 as of
             Inl e \<Rightarrow> Inl e
           | Inr (s2, rs) \<Rightarrow> Inr (s2, r # rs)))"

text \<open>
  The cumulative reward that an episode leaves: \<open>reset\<close>, then one \<open>step\<close> for each
  action, then the field \<open>total_reward\<close>.
\<close>

definition episode_total_reward ::
  "('r::{zero,plus}, 'v::{zero,plus}) calc_reward \<Rightarrow> int option \<Rightarrow> ('r, 'v) env \<Rightarrow>
     int list list \<Rightarrow> py_error + 'r" where
  "episode_total_reward calc seed s0 acts =
     (case reset seed s0 of
        Inl e \<Rightarrow> Inl e
      | Inr (s1, ob) \<Rightarrow>
          (case run_steps calc s1 acts of
             Inl e \<Rightarrow> Inl e
           | Inr (s, rs) \<Rightarrow> Inr (total_reward s)))"

section \<open>Notions used to state the properties\<close>

text \<open>A seed that the base class accepts: none, or an integer that is not negative.\<close>

definition valid_seed :: "int option \<Rightarrow> bool" where
  "valid_seed seed \<longleftrightarrow> (case seed of None \<Rightarrow> True | Some sd \<Rightarrow> 0 \<le> sd)"

text \<open>The state of the episode as \<open>__init__\<close> and \<open>reset\<close> leave it.\<close>

definition freshly_reset :: "('r::zero, 'v) env \<Rightarrow> bool" where
  "freshly_reset s \<longleftrightarrow>
     obs_trajectory s = get_initial_ob (max_trajectory_len s) (num_pitches s) \<and>
     trajectory_idx s = 0 \<and> total_reward s = 0 \<and> partial_rewards s = []"

text \<open>
  An action that the row assignment of \<open>step\<close> stores as it is: a vector of \<open>p\<close>
  integers of the array's element type.
\<close>

definition well_shaped :: "nat \<Rightarrow> int list \<Rightarrow> bool" where
  "well_shaped p a \<longleftrightarrow> length a = p \<and> list_all fits_int64 a"

text \<open>
  The trajectory buffer of \<open>n\<close> rows and \<open>p\<close> columns after the first \<open>k\<close> actions of
  \<open>acts\<close>: these actions, then rows of zeros.
\<close>

definition buffer_after :: "nat \<Rightarrow> nat \<Rightarrow> int list list \<Rightarrow> nat \<Rightarrow> ndarray" where
  "buffer_after n p acts k = take k acts @ replicate (n - k) (replicate p 0)"

text \<open>What the call of \<open>step\<close> number \<open>k\<close> (from 0) of an episode on \<open>acts\<close> returns.\<close>

definition result_at ::
  "('r, 'v) calc_reward \<Rightarrow> nat \<Rightarrow> nat \<Rightarrow> int list list \<Rightarrow> nat \<Rightarrow> ('r, 'v) step_result" where
  "result_at calc n p acts k =
     \<lparr> res_observation = buffer_after n p acts (Suc k),
       res_reward = fst (calc (buffer_after n p acts (Suc k)) (Suc k)),
       res_terminated = (n \<le> Suc k),
       res_truncated = False,
       res_info = snd (calc (buffer_after n p acts (Suc k)) (Suc k)) \<rparr>"

text \<open>The state in which an episode on \<open>acts\<close> ends that \<open>reset\<close> started in \<open>s0\<close>.\<close>

definition state_after ::
  "('r::{zero,plus}, 'v::{zero,plus}) calc_reward \<Rightarrow> ('r, 'v) env \<Rightarrow> int list list \<Rightarrow>
     ('r, 'v) env" where
  "state_after calc s0 acts =
     (let n = max_trajectory_len s0; p = num_pitches s0;
          rs = map (result_at calc n p acts) [0..<length acts]
      in s0\<lparr> obs_trajectory := buffer_after n p acts (length acts),
              trajectory_idx := length acts,
              total_reward := foldl (+) 0 (map res_reward rs),
              partial_rewards := fold ledger_add (map res_info rs) [] \<rparr>)"

text \<open>
  The invariant of the trajectory buffer: the rows below the cursor are the actions
  supplied, in order, and the rows from the cursor on are zero.
\<close>

definition rows_invariant :: "('r, 'v) env \<Rightarrow> int list list \<Rightarrow> bool" where
  "rows_invariant s acts \<longleftrightarrow>
     trajectory_idx s = length acts \<and>
     length (obs_trajectory s) = max_trajectory_len s \<and>
     (\<forall>k < trajectory_idx s. obs_trajectory s ! k = acts ! k) \<and>
     (\<forall>k. trajectory_idx s \<le> k \<and> k < max_trajectory_len s \<longrightarrow>
          obs_trajectory s ! k = replicate (num_pitches s) 0)"

text \<open>
  A scoring function that reads no row at or beyond its cursor: on two arrays of one
  length that agree on the first \<open>t\<close> rows it returns the same at cursor \<open>t\<close>.
\<close>

definition reads_prefix :: "('r, 'v) calc_reward \<Rightarrow> bool" where
  "reads_prefix calc \<longleftrightarrow>
     (\<forall>x y t. length x = length y \<and> take t x = take t y \<longrightarrow> calc x t = calc y t)"

text \<open>
  The action domain in the words of the specification: vectors of \<open>numPitches\<close> integers,
  each in the half-open range from 0 to 37.
\<close>

definition half_open_action_domain :: "nat \<Rightarrow> int list \<Rightarrow> bool" where
  "half_open_action_domain p a \<longleftrightarrow> length a = p \<and> list_all (\<lambda>x. 0 \<le> x \<and> x < 37) a"

section \<open>Dictionaries\<close>

lemma defaultdict_iadd_eq:
  "defaultdict_iadd d k v = dict_setitem d k (dict_get d k 0 + v)"
  by (simp add: defaultdict_iadd_def defaultdict_getitem_def dict_get_def dict_setitem_def
      split: option.splits)

lemma ledger_add_eq_merge_info: "ledger_add info d = merge_info info d"
  by (simp add: ledger_add_def merge_info_def defaultdict_iadd_eq)

lemma map_of_merge_info_notin:
  "k \<notin> fst ` set info \<Longrightarrow> map_of (merge_info info d) k = map_of d k"
  unfolding merge_info_def
  by (induction info arbitrary: d) (auto simp: dict_setitem_def update_conv')

lemma dict_get_merge_info:
  "dict_get (merge_info info d) k 0 =
     foldl (+) (dict_get d k 0) (map snd (filter (\<lambda>p. fst p = k) info))"
  unfolding merge_info_def
  by (induction info arbitrary: d) (auto simp: dict_setitem_def dict_get_def update_conv')

lemma keys_merge_info:
  "fst ` set (merge_info info d) = fst ` set d \<union> fst ` set info"
  unfolding merge_info_def
proof (induction info arbitrary: d)
  case Nil
  then show ?case by simp
next
  case (Cons p info)
  have "fst ` set (dict_setitem d (fst p) (dict_get d (fst p) 0 + snd p))
          = insert (fst p) (fst ` set d)"
    by (simp add: dict_setitem_def dom_update)
  then show ?case
    using Cons.IH[of "dict_setitem d (fst p) (dict_get d (fst p) 0 + snd p)"]
    by (auto simp: case_prod_beta)
qed

lemma map_of_merge_info_in:
  "distinct (map fst info) \<Longrightarrow> (k, v) \<in> set info \<Longrightarrow>
   map_of (merge_info info d) k = Some (dict_get d k 0 + v)"
  unfolding merge_info_def
proof (induction info arbitrary: d)
  case Nil
  then show ?case by simp
next
  case (Cons p info)
  show ?case
  proof (cases "p = (k, v)")
    case True
    then have "k \<notin> fst ` set info" using Cons.prems(1) by force
    then have "map_of (merge_info info (dict_setitem d k (dict_get d k 0 + v))) k
        = map_of (dict_setitem d k (dict_get d k 0 + v)) k"
      by (rule map_of_merge_info_notin)
    then show ?thesis using True
      by (simp add: merge_info_def dict_setitem_def update_conv')
  next
    case False
    then have later: "(k, v) \<in> set info" using Cons.prems(2) by simp
    then have "fst p \<noteq> k" using Cons.prems(1) by (cases p) force
    then have "dict_get (dict_setitem d (fst p) (dict_get d (fst p) 0 + snd p)) k 0
        = dict_get d k 0"
      by (simp add: dict_get_def dict_setitem_def update_conv')
    then show ?thesis
      using Cons.IH[OF _ later, of "dict_setitem d (fst p) (dict_get d (fst p) 0 + snd p)"]
        Cons.prems(1)
      by (simp add: case_prod_beta)
  qed
qed

section \<open>One call of \<open>step\<close>, and an episode\<close>

lemma setitem_row_ok:
  "i < length arr \<Longrightarrow> well_shaped ncols a \<Longrightarrow> setitem_row ncols arr i a = Inr (arr[i := a])"
  by (simp add: setitem_row_def well_shaped_def)

lemma step_eq:
  assumes "trajectory_idx s < length (obs_trajectory s)" and "well_shaped (num_pitches s) a"
  shows "step calc s a =
     Inr (s\<lparr> obs_trajectory := (obs_trajectory s)[trajectory_idx s := a],
             trajectory_idx := Suc (trajectory_idx s),
             total_reward := total_reward s
                + fst (calc ((obs_trajectory s)[trajectory_idx s := a]) (Suc (trajectory_idx s))),
             partial_rewards :=
                ledger_add
                  (snd (calc ((obs_trajectory s)[trajectory_idx s := a]) (Suc (trajectory_idx s))))
                  (partial_rewards s) \<rparr>,
          \<lparr> res_observation = (obs_trajectory s)[trajectory_idx s := a],
            res_reward =
              fst (calc ((obs_trajectory s)[trajectory_idx s := a]) (Suc (trajectory_idx s))),
            res_terminated = (max_trajectory_len s \<le> Suc (trajectory_idx s)),
            res_truncated = False,
            res_info =
              snd (calc ((obs_trajectory s)[trajectory_idx s := a]) (Suc (trajectory_idx s))) \<rparr>)"
proof -
  have "setitem_row (num_pitches s) (obs_trajectory s) (trajectory_idx s) a
          = Inr ((obs_trajectory s)[trajectory_idx s := a])"
    using assms by (simp add: setitem_row_ok)
  then show ?thesis
    by (simp add: step_def Let_def case_prod_beta)
qed

lemma run_steps_snoc:
  "run_steps calc s (as @ [a]) =
     (case run_steps calc s as of
        Inl e \<Rightarrow> Inl e
      | Inr (s1, rs) \<Rightarrow>
          (case step calc s1 a of
             Inl e \<Rightarrow> Inl e
           | Inr (s2, r) \<Rightarrow> Inr (s2, rs @ [r])))"
  by (induction as arbitrary: s) (auto split: sum.splits)

lemma length_buffer_after:
  "k \<le> length acts \<Longrightarrow> k \<le> n \<Longrightarrow> length (buffer_after n p acts k) = n"
  by (simp add: buffer_after_def)

lemma buffer_after_snoc_less:
  "k \<le> length as \<Longrightarrow> buffer_after n p (as @ [a]) k = buffer_after n p as k"
  by (simp add: buffer_after_def)

lemma buffer_after_update:
  assumes "length as < n"
  shows "(buffer_after n p as (length as))[length as := a]
           = buffer_after n p (as @ [a]) (Suc (length as))"
proof -
  from assms obtain m where "n - length as = Suc m" "n - Suc (length as) = m"
    by (cases "n - length as") auto
  then show ?thesis
    by (simp add: buffer_after_def list_update_append)
qed

lemma result_at_snoc_less:
  "k < length as \<Longrightarrow> result_at calc n p (as @ [a]) k = result_at calc n p as k"
  by (simp add: result_at_def buffer_after_snoc_less)

lemma reset_valid_seed:
  "valid_seed seed \<Longrightarrow> \<exists>s1. reset seed s = Inr (s1, (obs_trajectory s1, []))"
  by (auto simp: reset_def gym_env_reset_def valid_seed_def Let_def split: option.splits)

lemma reset_Inr:
  assumes "reset seed s = Inr (s1, ob)"
  shows "freshly_reset s1" and "max_trajectory_len s1 = max_trajectory_len s"
    and "num_pitches s1 = num_pitches s" and "ob = (obs_trajectory s1, [])"
  using assms
  by (auto simp: reset_def gym_env_reset_def freshly_reset_def Let_def
      split: option.splits if_splits)

lemma reset_init:
  "reset None (init n p d) = Inr (init n p d, (replicate n (replicate p 0), []))"
  by (simp add: reset_def gym_env_reset_def init_def Let_def get_initial_ob_def np_zeros_def)

lemma state_after_Nil: "freshly_reset s0 \<Longrightarrow> state_after calc s0 [] = s0"
  by (simp add: state_after_def freshly_reset_def Let_def buffer_after_def get_initial_ob_def
      np_zeros_def)

lemma run_steps_fresh:
  assumes "freshly_reset s0"
    and "length acts \<le> max_trajectory_len s0"
    and "\<forall>a \<in> set acts. well_shaped (num_pitches s0) a"
  shows "run_steps calc s0 acts =
     Inr (state_after calc s0 acts,
          map (result_at calc (max_trajectory_len s0) (num_pitches s0) acts) [0..<length acts])"
  using assms(2,3)
proof (induction acts rule: rev_induct)
  case Nil
  then show ?case by (simp add: state_after_Nil[OF assms(1)])
next
  case (snoc a as)
  let ?n = "max_trajectory_len s0" and ?p = "num_pitches s0"
  let ?s = "state_after calc s0 as"
  have len: "length as < ?n" using snoc.prems(1) by simp
  have ws: "well_shaped ?p a" using snoc.prems(2) by simp
  have IH: "run_steps calc s0 as =
     Inr (?s, map (result_at calc ?n ?p as) [0..<length as])"
    using snoc by simp
  have idx: "trajectory_idx ?s = length as"
    "obs_trajectory ?s = buffer_after ?n ?p as (length as)"
    "num_pitches ?s = ?p" "max_trajectory_len ?s = ?n"
    by (simp_all add: state_after_def Let_def)
  have pre: "trajectory_idx ?s < length (obs_trajectory ?s)"
    using len by (simp add: idx length_buffer_after)
  have old: "map (result_at calc ?n ?p (as @ [a])) [0..<length as]
      = map (result_at calc ?n ?p as) [0..<length as]"
    by (simp add: result_at_snoc_less)
  have old_r: "map (res_reward \<circ> result_at calc ?n ?p (as @ [a])) [0..<length as]
      = map (res_reward \<circ> result_at calc ?n ?p as) [0..<length as]"
    by (simp add: result_at_snoc_less)
  have old_i: "map (res_info \<circ> result_at calc ?n ?p (as @ [a])) [0..<length as]
      = map (res_info \<circ> result_at calc ?n ?p as) [0..<length as]"
    by (simp add: result_at_snoc_less)
  have st: "step calc ?s a =
     Inr (state_after calc s0 (as @ [a]), result_at calc ?n ?p (as @ [a]) (length as))"
    using step_eq[OF pre, of a calc] ws len
    by (simp add: idx buffer_after_update state_after_def Let_def old_r old_i result_at_def)
  show ?case
    by (simp add: run_steps_snoc IH st old)
qed

lemma step_total_reward:
  "step calc s a = Inr (s1, r) \<Longrightarrow> total_reward s1 = total_reward s + res_reward r"
  by (auto simp: step_def Let_def case_prod_beta split: sum.splits)

lemma run_steps_total_reward:
  "run_steps calc s acts = Inr (s1, rs) \<Longrightarrow>
   total_reward s1 = foldl (+) (total_reward s) (map res_reward rs)"
proof (induction acts arbitrary: s rs)
  case Nil
  then show ?case by simp
next
  case (Cons a acts)
  from Cons.prems obtain s2 r rs2 where
    st: "step calc s a = Inr (s2, r)" and
    rest: "run_steps calc s2 acts = Inr (s1, rs2)" and rs: "rs = r # rs2"
    by (auto split: sum.splits)
  from Cons.IH[OF rest] step_total_reward[OF st] rs show ?case by simp
qed

lemma rows_invariant_state_after:
  assumes "length acts \<le> max_trajectory_len s0"
  shows "rows_invariant (state_after calc s0 acts) acts"
proof -
  let ?n = "max_trajectory_len s0" and ?p = "num_pitches s0"
  have below: "buffer_after ?n ?p acts (length acts) ! k = acts ! k" if "k < length acts" for k
    using that by (simp add: buffer_after_def nth_append)
  have above: "buffer_after ?n ?p acts (length acts) ! k = replicate ?p 0"
    if "length acts \<le> k" "k < ?n" for k
    using that by (simp add: buffer_after_def nth_append)
  show ?thesis
    using assms below above
    by (simp add: rows_invariant_def state_after_def Let_def length_buffer_after)
qed

lemma action_space_well_shaped:
  "box_contains_vector (action_space (init n p d)) a \<Longrightarrow> well_shaped p a"
proof -
  assume "box_contains_vector (action_space (init n p d)) a"
  then have len: "length a = p" and rng: "\<forall>x \<in> set a. 0 \<le> x \<and> x \<le> 37"
    by (auto simp: box_contains_vector_def init_def list_all_iff)
  have "fits_int64 x" if "x \<in> set a" for x
    using rng that by (auto simp: fits_int64_def)
  then show ?thesis using len by (simp add: well_shaped_def list_all_iff)
qed

lemma run_steps_after_reset:
  assumes "reset seed s0 = Inr (s1, ob)"
    and "length acts \<le> max_trajectory_len s0"
    and "\<forall>a \<in> set acts. well_shaped (num_pitches s0) a"
  shows "run_steps calc s1 acts =
     Inr (state_after calc s1 acts,
          map (result_at calc (max_trajectory_len s0) (num_pitches s0) acts) [0..<length acts])"
  using run_steps_fresh[OF reset_Inr(1)[OF assms(1)], of acts calc] assms(2,3)
  by (simp add: reset_Inr(2,3)[OF assms(1)])

section \<open>The environment protocol\<close>

text \<open>
  Claim C5. In every state, also in the middle of an episode, \<open>reset\<close> with no seed or
  with a seed that is not negative returns. The observation it returns is the array of
  \<open>max_trajectory_len\<close> rows of \<open>num_pitches\<close> zeros, which is also the new trajectory; the
  cursor is 0, the cumulative reward is 0, the ledger is empty and the info mapping
  returned is empty. The configuration stays, and nothing of the trajectory, the cursor,
  the reward or the ledger of the state before the call is left: changing them before
  the call changes nothing of what \<open>reset\<close> returns. With a negative seed the base class
  raises before any field is assigned, so \<open>reset\<close> does not always succeed.
\<close>

theorem reset_clears_episode:
  assumes "valid_seed seed"
  shows "\<exists>s1. reset seed s
            = Inr (s1, (replicate (max_trajectory_len s) (replicate (num_pitches s) 0), []))
     \<and> obs_trajectory s1 = replicate (max_trajectory_len s) (replicate (num_pitches s) 0)
     \<and> trajectory_idx s1 = 0
     \<and> total_reward s1 = 0
     \<and> partial_rewards s1 = []
     \<and> max_trajectory_len s1 = max_trajectory_len s
     \<and> num_pitches s1 = num_pitches s
     \<and> reset seed (s\<lparr> obs_trajectory := t, trajectory_idx := i, total_reward := r,
                       partial_rewards := l \<rparr>) = reset seed s"
  using assms
  by (auto simp: reset_def gym_env_reset_def valid_seed_def Let_def get_initial_ob_def
      np_zeros_def split: option.splits)

theorem reset_clears_episode_witness:
  "valid_seed (Some 7)
   \<and> (\<exists>s1. reset (Some 7)
              ((init 4 2 None :: (int, int) env)
                 \<lparr> obs_trajectory := [[5, 0], [0, 0], [0, 0], [0, 0]], trajectory_idx := 1,
                   total_reward := 1, partial_rewards := [(''len'', 1)] \<rparr>)
            = Inr (s1, ([[0, 0], [0, 0], [0, 0], [0, 0]], []))
          \<and> obs_trajectory s1 = [[0, 0], [0, 0], [0, 0], [0, 0]]
          \<and> trajectory_idx s1 = 0 \<and> total_reward s1 = 0 \<and> partial_rewards s1 = [])"
proof -
  let ?s = "(init 4 2 None :: (int, int) env)
              \<lparr> obs_trajectory := [[5, 0], [0, 0], [0, 0], [0, 0]], trajectory_idx := 1,
                total_reward := 1, partial_rewards := [(''len'', 1)] \<rparr>"
  have h: "valid_seed (Some 7)" by (simp add: valid_seed_def)
  have z: "replicate (max_trajectory_len ?s) (replicate (num_pitches ?s) (0::int))
      = [[0, 0], [0, 0], [0, 0], [0, 0]]"
    by (simp add: init_def numeral_eq_Suc)
  from reset_clears_episode[OF h, of ?s] h show ?thesis
    unfolding z by blast
qed

theorem reset_negative_seed_counterexample:
  "reset (Some (- 1)) (init 4 2 None :: (int, int) env) = Inl GymError"
  by (simp add: reset_def gym_env_reset_def)

text \<open>
  Claim C6. When the cursor is below \<open>max_trajectory_len\<close> (the number of rows of the
  buffer), \<open>step\<close> on a vector of \<open>num_pitches\<close> integers returns. It writes the action
  into the row at the cursor and changes no other row, adds one to the cursor, and calls
  the scoring function on the whole buffer and the new cursor. It returns the whole
  buffer as the observation, the reward and the info mapping of that one call of the
  scoring function; the reward is added to \<open>total_reward\<close> and the info mapping to the
  ledger, neither of which is what is returned.
\<close>

theorem step_writes_then_scores:
  assumes "trajectory_idx s < max_trajectory_len s"
    and "length (obs_trajectory s) = max_trajectory_len s"
    and "well_shaped (num_pitches s) action"
  shows "\<exists>s1 r. step calc s action = Inr (s1, r)
     \<and> obs_trajectory s1 = (obs_trajectory s)[trajectory_idx s := action]
     \<and> trajectory_idx s1 = trajectory_idx s + 1
     \<and> (res_reward r, res_info r) = calc (obs_trajectory s1) (trajectory_idx s1)
     \<and> res_observation r = obs_trajectory s1
     \<and> total_reward s1 = total_reward s + res_reward r
     \<and> partial_rewards s1 = ledger_add (res_info r) (partial_rewards s)"
proof -
  have pre: "trajectory_idx s < length (obs_trajectory s)" using assms(1,2) by simp
  show ?thesis
    by (simp add: step_eq[OF pre assms(3)])
qed

theorem step_writes_then_scores_witness:
  "\<exists>s1 r. step (\<lambda>traj t. (int t, [(''len'', 1::int)])) (init 4 2 None) [5, 0] = Inr (s1, r)
       \<and> obs_trajectory s1 = [[5, 0], [0, 0], [0, 0], [0, 0]]
       \<and> trajectory_idx s1 = 1
       \<and> res_reward r = 1 \<and> res_info r = [(''len'', 1)]
       \<and> res_observation r = [[5, 0], [0, 0], [0, 0], [0, 0]]
       \<and> total_reward s1 = 1"
proof -
  let ?s0 = "init 4 2 None :: (int, int) env"
  let ?calc = "\<lambda>(traj :: ndarray) t. (int t, [(''len'', 1::int)])"
  have h1: "trajectory_idx ?s0 < max_trajectory_len ?s0" by (simp add: init_def)
  have h2: "length (obs_trajectory ?s0) = max_trajectory_len ?s0"
    by (simp add: init_def get_initial_ob_def np_zeros_def)
  have h3: "well_shaped (num_pitches ?s0) [5, 0]"
    by (simp add: init_def well_shaped_def fits_int64_def)
  have ob: "obs_trajectory ?s0 = [[0, 0], [0, 0], [0, 0], [0, 0]]"
    by (simp add: init_def get_initial_ob_def np_zeros_def numeral_eq_Suc)
  have v: "trajectory_idx ?s0 = 0" "total_reward ?s0 = 0" by (simp_all add: init_def)
  from step_writes_then_scores[OF h1 h2 h3, of ?calc]
  show ?thesis unfolding ob v by auto
qed

text \<open>
  Claim C2. After a \<open>reset\<close> that returned and any sequence of at most
  \<open>max_trajectory_len\<close> calls of \<open>step\<close> on vectors of \<open>num_pitches\<close> integers (so that every
  call is made with the cursor below \<open>max_trajectory_len\<close>), all the calls return, the
  cursor is the number of calls, every row below the cursor is the action of the call of
  that number, and every row from the cursor on is zero. The sequence may be empty or be
  extended by one more call: the invariant holds after \<open>reset\<close> and every such \<open>step\<close>
  preserves it.
\<close>

theorem trajectory_rows_invariant:
  assumes "reset seed s0 = Inr (s1, ob)"
    and "length acts \<le> max_trajectory_len s0"
    and "\<forall>a \<in> set acts. well_shaped (num_pitches s0) a"
  shows "\<exists>s rs. run_steps calc s1 acts = Inr (s, rs) \<and> rows_invariant s acts"
proof -
  have "length acts \<le> max_trajectory_len s1"
    using assms(2) by (simp add: reset_Inr(2)[OF assms(1)])
  then have "rows_invariant (state_after calc s1 acts) acts"
    by (rule rows_invariant_state_after)
  with run_steps_after_reset[OF assms, of calc] show ?thesis by simp
qed

theorem trajectory_rows_invariant_witness:
  "reset None (init 4 2 None :: (int, int) env)
     = Inr (init 4 2 None, ([[0, 0], [0, 0], [0, 0], [0, 0]], []))
   \<and> length [[5, 0], [0, 0], [7, 1], [1, 1::int]] \<le> max_trajectory_len (init 4 2 None :: (int, int) env)
   \<and> list_all (well_shaped (num_pitches (init 4 2 None :: (int, int) env)))
        [[5, 0], [0, 0], [7, 1], [1, 1]]
   \<and> (\<exists>s rs. run_steps (\<lambda>traj t. (int t, [(''len'', 1::int)]))
                 (init 4 2 None) [[5, 0], [0, 0], [7, 1], [1, 1]] = Inr (s, rs)
          \<and> rows_invariant s [[5, 0], [0, 0], [7, 1], [1, 1]])"
proof -
  let ?s0 = "init 4 2 None :: (int, int) env"
  let ?acts = "[[5, 0], [0, 0], [7, 1], [1, 1::int]]"
  have h0: "reset None ?s0 = Inr (?s0, ([[0, 0], [0, 0], [0, 0], [0, 0]], []))"
    by (simp add: reset_init numeral_eq_Suc)
  have h1: "length ?acts \<le> max_trajectory_len ?s0" by (simp add: init_def)
  have h2: "\<forall>a \<in> set ?acts. well_shaped (num_pitches ?s0) a"
    by (simp add: init_def well_shaped_def fits_int64_def)
  from trajectory_rows_invariant[OF h0 h1 h2, of "\<lambda>traj t. (int t, [(''len'', 1::int)])"]
    h0 h1 h2
  show ?thesis by (simp add: list_all_iff)
qed

text \<open>
  Claim C3. After a \<open>reset\<close> that returned, \<open>max_trajectory_len\<close> successive calls of
  \<open>step\<close> on vectors of \<open>num_pitches\<close> integers (every action of the declared action space
  is one, see \<open>action_space_well_shaped\<close>) all return; the call number \<open>i\<close> (from 0)
  returns \<open>terminated\<close> true exactly when the cursor after it, \<open>i + 1\<close>, is
  \<open>max_trajectory_len\<close>, that is on the last call only; and \<open>truncated\<close> is false on every
  call.
\<close>

theorem terminated_exactly_at_max_length:
  assumes "reset seed s0 = Inr (s1, ob)"
    and "length acts = max_trajectory_len s0"
    and "\<forall>a \<in> set acts. well_shaped (num_pitches s0) a"
  shows "\<exists>s rs. run_steps calc s1 acts = Inr (s, rs)
     \<and> length rs = max_trajectory_len s0
     \<and> (\<forall>i < length rs. res_terminated (rs ! i) = (Suc i = max_trajectory_len s0))
     \<and> (\<forall>i < length rs. \<not> res_truncated (rs ! i))"
proof -
  let ?n = "max_trajectory_len s0" and ?p = "num_pitches s0"
  let ?rs = "map (result_at calc ?n ?p acts) [0..<length acts]"
  have le: "length acts \<le> ?n" using assms(2) by simp
  have run: "run_steps calc s1 acts = Inr (state_after calc s1 acts, ?rs)"
    by (rule run_steps_after_reset[OF assms(1) le assms(3)])
  have len: "length ?rs = ?n" using assms(2) by simp
  have fin: "res_terminated (?rs ! i) = (Suc i = ?n)" if "i < length ?rs" for i
    using that assms(2) by (auto simp: result_at_def)
  have trunc: "\<not> res_truncated (?rs ! i)" if "i < length ?rs" for i
    using that by (simp add: result_at_def)
  show ?thesis using run len fin trunc by blast
qed

theorem terminated_exactly_at_max_length_witness:
  "reset None (init 4 2 None :: (int, int) env)
     = Inr (init 4 2 None, ([[0, 0], [0, 0], [0, 0], [0, 0]], []))
   \<and> length [[5, 0], [0, 0], [7, 1], [1, 1::int]] = max_trajectory_len (init 4 2 None :: (int, int) env)
   \<and> list_all (well_shaped (num_pitches (init 4 2 None :: (int, int) env)))
        [[5, 0], [0, 0], [7, 1], [1, 1]]
   \<and> (\<exists>s rs. run_steps (\<lambda>traj t. (int t, [(''len'', 1::int)]))
                 (init 4 2 None) [[5, 0], [0, 0], [7, 1], [1, 1]] = Inr (s, rs)
          \<and> length rs = 4
          \<and> \<not> res_terminated (rs ! 0) \<and> \<not> res_terminated (rs ! 1)
          \<and> \<not> res_terminated (rs ! 2) \<and> res_terminated (rs ! 3)
          \<and> \<not> res_truncated (rs ! 0) \<and> \<not> res_truncated (rs ! 3))"
proof -
  let ?s0 = "init 4 2 None :: (int, int) env"
  let ?acts = "[[5, 0], [0, 0], [7, 1], [1, 1::int]]"
  let ?calc = "\<lambda>(traj :: ndarray) t. (int t, [(''len'', 1::int)])"
  have h0: "reset None ?s0 = Inr (?s0, ([[0, 0], [0, 0], [0, 0], [0, 0]], []))"
    by (simp add: reset_init numeral_eq_Suc)
  have h1: "length ?acts = max_trajectory_len ?s0" by (simp add: init_def)
  have h2: "\<forall>a \<in> set ?acts. well_shaped (num_pitches ?s0) a"
    by (simp add: init_def well_shaped_def fits_int64_def)
  have n: "max_trajectory_len ?s0 = 4" by (simp add: init_def)
  from terminated_exactly_at_max_length[OF h0 h1 h2, of ?calc]
  obtain s rs where run: "run_steps ?calc ?s0 ?acts = Inr (s, rs)"
    and len: "length rs = 4"
    and fin: "\<forall>i < length rs. res_terminated (rs ! i) = (Suc i = 4)"
    and tr: "\<forall>i < length rs. \<not> res_truncated (rs ! i)"
    unfolding n by blast
  have "\<not> res_terminated (rs ! 0)" "\<not> res_terminated (rs ! 1)" "\<not> res_terminated (rs ! 2)"
    "res_terminated (rs ! 3)" "\<not> res_truncated (rs ! 0)" "\<not> res_truncated (rs ! 3)"
    using fin tr len by simp_all
  with run len h0 h1 h2 show ?thesis by (simp add: list_all_iff)
qed

text \<open>
  Claim C4. After any number of successful calls of \<open>step\<close> since the last \<open>reset\<close>,
  so also at the end of an episode, \<open>total_reward\<close> is the running sum of the rewards
  that these calls returned.
\<close>

theorem cumulative_reward_is_running_sum:
  assumes "reset seed s0 = Inr (s1, ob)"
    and "run_steps calc s1 acts = Inr (s, rs)"
  shows "total_reward s = foldl (+) 0 (map res_reward rs)"
proof -
  have "total_reward s1 = 0"
    using reset_Inr(1)[OF assms(1)] by (simp add: freshly_reset_def)
  with run_steps_total_reward[OF assms(2)] show ?thesis by simp
qed

theorem cumulative_reward_is_running_sum_witness:
  "reset None (init 4 2 None :: (int, int) env)
     = Inr (init 4 2 None, ([[0, 0], [0, 0], [0, 0], [0, 0]], []))
   \<and> (\<exists>s rs. run_steps (\<lambda>traj t. (int t, [(''len'', 1::int)]))
              (init 4 2 None) [[5, 0], [0, 0]] = Inr (s, rs)
       \<and> map res_reward rs = [1, 2]
       \<and> total_reward s = foldl (+) 0 (map res_reward rs)
       \<and> total_reward s = 3)"
proof -
  let ?s0 = "init 4 2 None :: (int, int) env"
  let ?acts = "[[5, 0], [0, 0::int]]"
  let ?calc = "\<lambda>(traj :: ndarray) t. (int t, [(''len'', 1::int)])"
  have h0: "reset None ?s0 = Inr (?s0, ([[0, 0], [0, 0], [0, 0], [0, 0]], []))"
    by (simp add: reset_init numeral_eq_Suc)
  have h1: "length ?acts \<le> max_trajectory_len ?s0" by (simp add: init_def)
  have h2: "\<forall>a \<in> set ?acts. well_shaped (num_pitches ?s0) a"
    by (simp add: init_def well_shaped_def fits_int64_def)
  have up: "[0..<length ?acts] = [0, 1]" by (simp add: upt_rec)
  obtain s rs where run: "run_steps ?calc ?s0 ?acts = Inr (s, rs)"
    and rs: "rs = map (result_at ?calc (max_trajectory_len ?s0) (num_pitches ?s0) ?acts)
                    [0..<length ?acts]"
    using run_steps_after_reset[OF h0 h1 h2, of ?calc] by blast
  have rw: "map res_reward rs = [1, 2]"
    unfolding rs up by (simp add: result_at_def)
  from cumulative_reward_is_running_sum[OF h0 run] rw run h0 show ?thesis by simp
qed

text \<open>
  Claim C7. After a successful \<open>step\<close>, whose info mapping is the one the scoring
  function returned (a dictionary: its keys are distinct), every key of the info mapping
  has in the ledger its former value, or 0 where it had none, plus the value of the
  info mapping; every other key of the ledger is as it was.
\<close>

theorem ledger_only_accumulates:
  assumes "step calc s a = Inr (s1, r)" and "distinct (map fst (res_info r))"
  shows "res_info r = snd (calc (obs_trajectory s1) (trajectory_idx s1))
     \<and> (\<forall>(k, v) \<in> set (res_info r).
           map_of (partial_rewards s1) k = Some (dict_get (partial_rewards s) k 0 + v)
           \<and> (map_of (partial_rewards s) k = None \<longrightarrow> map_of (partial_rewards s1) k = Some (0 + v)))
     \<and> (\<forall>k. k \<notin> fst ` set (res_info r) \<longrightarrow>
           map_of (partial_rewards s1) k = map_of (partial_rewards s) k)"
proof -
  from assms(1) have info: "res_info r = snd (calc (obs_trajectory s1) (trajectory_idx s1))"
    and led: "partial_rewards s1 = merge_info (res_info r) (partial_rewards s)"
    by (auto simp: step_def Let_def case_prod_beta ledger_add_eq_merge_info split: sum.splits)
  have a: "map_of (partial_rewards s1) k = Some (dict_get (partial_rewards s) k 0 + v)"
    if "(k, v) \<in> set (res_info r)" for k v
    using map_of_merge_info_in[OF assms(2) that] led by simp
  have b: "map_of (partial_rewards s1) k = map_of (partial_rewards s) k"
    if "k \<notin> fst ` set (res_info r)" for k
    using map_of_merge_info_notin[OF that] led by simp
  have c: "dict_get (partial_rewards s) k 0 = 0" if "map_of (partial_rewards s) k = None" for k
    using that by (simp add: dict_get_def)
  show ?thesis using info a b c by auto
qed

theorem ledger_only_accumulates_witness:
  "\<exists>s1 r. step (\<lambda>traj t. (int t, [(''len'', 1::int), (''pitch'', 2)]))
              ((init 4 2 None)\<lparr> partial_rewards := [(''len'', 5), (''rest'', 7)] \<rparr>) [5, 0]
            = Inr (s1, r)
       \<and> distinct (map fst (res_info r))
       \<and> map_of (partial_rewards s1) ''len'' = Some 6
       \<and> map_of (partial_rewards s1) ''pitch'' = Some 2
       \<and> map_of (partial_rewards s1) ''rest'' = Some 7"
proof -
  let ?s0 = "(init 4 2 None :: (int, int) env)\<lparr> partial_rewards := [(''len'', 5), (''rest'', 7)] \<rparr>"
  let ?calc = "\<lambda>(traj :: ndarray) t. (int t, [(''len'', 1::int), (''pitch'', 2)])"
  have h1: "trajectory_idx ?s0 < length (obs_trajectory ?s0)"
    by (simp add: init_def get_initial_ob_def np_zeros_def)
  have h3: "well_shaped (num_pitches ?s0) [5, 0]"
    by (simp add: init_def well_shaped_def fits_int64_def)
  obtain s1 r where st: "step ?calc ?s0 [5, 0] = Inr (s1, r)"
    and info: "res_info r = [(''len'', 1), (''pitch'', 2)]"
    using step_eq[OF h1 h3, of ?calc] by simp
  have d: "distinct (map fst (res_info r))" by (simp add: info)
  from ledger_only_accumulates[OF st d] info d st
  show ?thesis by (auto simp: dict_get_def)
qed

text \<open>
  Claim C10. For every state, clock reading and mode argument, \<open>render\<close> leaves the
  trajectory buffer, the cursor, the cumulative reward and the ledger as they were; the
  whole state is unchanged.
\<close>

theorem render_leaves_state:
  "obs_trajectory (fst (render encode now mode s)) = obs_trajectory s
   \<and> trajectory_idx (fst (render encode now mode s)) = trajectory_idx s
   \<and> total_reward (fst (render encode now mode s)) = total_reward s
   \<and> partial_rewards (fst (render encode now mode s)) = partial_rewards s
   \<and> fst (render encode now mode s) = s"
  by (simp add: render_def Let_def)

section \<open>The declared spaces\<close>

text \<open>
  Claim C8. \<open>__init__\<close> declares the action space as the box of shape \<open>(num_pitches)\<close> and
  the observation space as the box of shape \<open>(max_trajectory_len, num_pitches)\<close>, both
  with the bounds 0 and 37. A box contains both of its bounds, so the declared action
  domain is the vectors of \<open>num_pitches\<close> integers from 0 to 37, 37 included (the two
  special values 0 and 1 and the 36 pitches of the comment in the code), and the
  observation domain is the arrays of that shape with the same bounds. The action
  \<open>[37, 37]\<close> is in the declared domain and not in the half-open range.
\<close>

theorem declared_spaces_are_closed_ranges:
  fixes s :: "('r::zero, 'v) env"
  assumes "s = init n p d"
  shows "action_space s = \<lparr> low = 0, high = 37, shape = [p] \<rparr>
   \<and> observation_space s = \<lparr> low = 0, high = 37, shape = [n, p] \<rparr>
   \<and> (box_contains_vector (action_space s) a \<longleftrightarrow>
        length a = p \<and> (\<forall>x \<in> set a. 0 \<le> x \<and> x \<le> 37))
   \<and> (box_contains_matrix (observation_space s) m \<longleftrightarrow>
        length m = n \<and> (\<forall>row \<in> set m. length row = p \<and> (\<forall>x \<in> set row. 0 \<le> x \<and> x \<le> 37)))"
  unfolding assms
  by (auto simp: init_def box_contains_vector_def box_contains_matrix_def list_all_iff)

theorem declared_spaces_are_closed_ranges_witness:
  "box_contains_vector (action_space (init 4 2 None :: (int, int) env)) [37, 0]
   \<and> box_contains_matrix (observation_space (init 4 2 None :: (int, int) env))
        [[37, 0], [0, 0], [0, 36], [1, 1]]"
proof -
  let ?s = "init 4 2 None :: (int, int) env"
  have s: "?s = init 4 2 None" by simp
  note t = declared_spaces_are_closed_ranges[OF s, of "[37, 0]"
      "[[37, 0], [0, 0], [0, 36], [1, 1]]"]
  from t have "box_contains_vector (action_space ?s) [37, 0] \<longleftrightarrow>
      length [37, 0 :: int] = 2 \<and> (\<forall>x \<in> set [37, 0 :: int]. 0 \<le> x \<and> x \<le> 37)"
    by blast
  then have a: "box_contains_vector (action_space ?s) [37, 0]" by simp
  from t have "box_contains_matrix (observation_space ?s) [[37, 0], [0, 0], [0, 36], [1, 1]] \<longleftrightarrow>
      length [[37, 0], [0, 0], [0, 36], [1, 1 :: int]] = 4 \<and>
      (\<forall>row \<in> set [[37, 0], [0, 0], [0, 36], [1, 1 :: int]].
          length row = 2 \<and> (\<forall>x \<in> set row. 0 \<le> x \<and> x \<le> 37))"
    by blast
  then have b: "box_contains_matrix (observation_space ?s) [[37, 0], [0, 0], [0, 36], [1, 1]]"
    by simp
  from a b show ?thesis by simp
qed

theorem action_37_counterexample:
  "box_contains_vector (action_space (init 4 2 None :: (int, int) env)) [37, 37]
   \<and> \<not> half_open_action_domain 2 [37, 37]"
  by (simp add: init_def box_contains_vector_def half_open_action_domain_def)

section \<open>Files written by \<open>render\<close> and \<open>save_midi\<close>\<close>

text \<open>
  Claim C9. With an output directory, \<open>save_midi\<close> writes one file named from the format
  \<open>%m-%d-%y_%H%M\<close> and the number of rows. \<open>render\<close> uses the format \<open>%m-%d-%y_%H%M%s\<close>
  instead: its file name carries the seconds since the epoch between the minutes and
  \<open>_ep\<close>. For the environment of 4 rows with the directory \<open>out\<close>, at 15:39 on
  2026-11-04:
\<close>

theorem render_file_name_has_epoch_seconds:
  "map fst (files_written (snd (render encode
       \<lparr> tm_year = 2026, tm_mon = 11, tm_mday = 4, tm_hour = 15, tm_min = 39,
         epoch_seconds = 1793806740 \<rparr> ''human'' (init 4 2 (Some ''out'')))))
     = [''out/ts11-04-26_15391793806740_ep4.midi'']
   \<and> map fst (files_written (save_midi calc encode
       \<lparr> tm_year = 2026, tm_mon = 11, tm_mday = 4, tm_hour = 15, tm_min = 39,
         epoch_seconds = 1793806740 \<rparr> (get_initial_ob 4 2) (Some ''out'')))
     = [''out/ts11-04-26_1539_ep4.midi'']"
  by (simp add: render_def save_midi_def init_def get_initial_ob_def np_zeros_def Let_def
      case_prod_beta path_join_def directive_def two_digits_def digit_def)

section \<open>The static \<open>save_midi\<close> and the live episode\<close>

lemma fold_rescoring:
  "fold (\<lambda>t (total_reward, total_info).
           (case calc trajectory t of (reward, info) \<Rightarrow>
              (total_reward + reward, merge_info info total_info))) ts (r0, i0)
   = (foldl (+) r0 (map (\<lambda>t. fst (calc trajectory t)) ts),
      fold merge_info (map (\<lambda>t. snd (calc trajectory t)) ts) i0)"
  by (induction ts arbitrary: r0 i0) (simp_all add: case_prod_beta)

lemma save_midi_totals_eq:
  "save_midi_totals calc trajectory =
     (foldl (+) 0 (map (\<lambda>t. fst (calc trajectory t)) [1..<length trajectory]),
      fold merge_info (map (\<lambda>t. snd (calc trajectory t)) [1..<length trajectory]) [])"
  unfolding save_midi_totals_def by (rule fold_rescoring)

lemma dict_get_fold_merge_info:
  "dict_get (fold merge_info infos d) k 0 =
     foldl (+) (dict_get d k 0) (map snd (filter (\<lambda>p. fst p = k) (concat infos)))"
  by (induction infos arbitrary: d) (simp_all add: dict_get_merge_info)

lemma fold_ledger_add_eq: "fold ledger_add infos d = fold merge_info infos d"
proof -
  have "ledger_add = (merge_info :: ('a::{zero,plus}) dict \<Rightarrow> 'a dict \<Rightarrow> 'a dict)"
    by (intro ext) (rule ledger_add_eq_merge_info)
  then show ?thesis by simp
qed

lemma calc_buffer_after:
  assumes "reads_prefix calc" and "Suc k \<le> m" and "m \<le> length traj"
  shows "calc (buffer_after (length traj) p (take m traj) (Suc k)) (Suc k) = calc traj (Suc k)"
proof -
  let ?b = "buffer_after (length traj) p (take m traj) (Suc k)"
  have len: "length ?b = length traj"
    using assms(2,3) by (simp add: buffer_after_def)
  have "take (Suc k) ?b = take (Suc k) (take m traj)"
    using assms(2,3) by (simp add: buffer_after_def)
  also have "\<dots> = take (Suc k) traj"
    using assms(2) by (simp add: min_def)
  finally have "take (Suc k) ?b = take (Suc k) traj" .
  with len assms(1) show ?thesis
    unfolding reads_prefix_def by blast
qed

lemma results_of_prefix:
  assumes "reads_prefix calc" and "m \<le> length traj"
  shows "map (res_reward \<circ> result_at calc (length traj) p (take m traj)) [0..<m]
           = map (\<lambda>t. fst (calc traj t)) [1..<Suc m]"
    and "map (res_info \<circ> result_at calc (length traj) p (take m traj)) [0..<m]
           = map (\<lambda>t. snd (calc traj t)) [1..<Suc m]"
proof -
  have shift: "[1..<Suc m] = map Suc [0..<m]" by (simp add: map_Suc_upt)
  have r: "res_reward (result_at calc (length traj) p (take m traj) k) = fst (calc traj (Suc k))"
    if "k < m" for k
    using that calc_buffer_after[OF assms(1) _ assms(2), of k p] by (simp add: result_at_def)
  have i: "res_info (result_at calc (length traj) p (take m traj) k) = snd (calc traj (Suc k))"
    if "k < m" for k
    using that calc_buffer_after[OF assms(1) _ assms(2), of k p] by (simp add: result_at_def)
  show "map (res_reward \<circ> result_at calc (length traj) p (take m traj)) [0..<m]
           = map (\<lambda>t. fst (calc traj t)) [1..<Suc m]"
    unfolding shift using r by simp
  show "map (res_info \<circ> result_at calc (length traj) p (take m traj)) [0..<m]
           = map (\<lambda>t. snd (calc traj t)) [1..<Suc m]"
    unfolding shift using i by simp
qed

lemma state_after_prefix:
  assumes "reads_prefix calc" and "m \<le> length traj" and "length traj = max_trajectory_len s0"
  shows "total_reward (state_after calc s0 (take m traj))
           = foldl (+) 0 (map (\<lambda>t. fst (calc traj t)) [1..<Suc m])"
    and "partial_rewards (state_after calc s0 (take m traj))
           = fold merge_info (map (\<lambda>t. snd (calc traj t)) [1..<Suc m]) []"
proof -
  let ?p = "num_pitches s0"
  have len: "length (take m traj) = m" using assms(2) by simp
  have "total_reward (state_after calc s0 (take m traj))
      = foldl (+) 0 (map (res_reward \<circ> result_at calc (length traj) ?p (take m traj)) [0..<m])"
    unfolding state_after_def Let_def len assms(3)[symmetric] by simp
  then show "total_reward (state_after calc s0 (take m traj))
           = foldl (+) 0 (map (\<lambda>t. fst (calc traj t)) [1..<Suc m])"
    by (simp only: results_of_prefix(1)[OF assms(1,2)])
  have "partial_rewards (state_after calc s0 (take m traj))
      = fold merge_info (map (res_info \<circ> result_at calc (length traj) ?p (take m traj)) [0..<m]) []"
    unfolding state_after_def Let_def len assms(3)[symmetric]
    by (simp add: fold_ledger_add_eq)
  then show "partial_rewards (state_after calc s0 (take m traj))
           = fold merge_info (map (\<lambda>t. snd (calc traj t)) [1..<Suc m]) []"
    by (simp only: results_of_prefix(2)[OF assms(1,2)])
qed

lemma run_steps_prefix:
  assumes "reset seed s0 = Inr (s1, ob)"
    and "reads_prefix calc" and "m \<le> length traj" and "length traj = max_trajectory_len s0"
    and "\<forall>a \<in> set traj. well_shaped (num_pitches s0) a"
  shows "\<exists>s rs. run_steps calc s1 (take m traj) = Inr (s, rs)
     \<and> total_reward s = foldl (+) 0 (map (\<lambda>t. fst (calc traj t)) [1..<Suc m])
     \<and> partial_rewards s = fold merge_info (map (\<lambda>t. snd (calc traj t)) [1..<Suc m]) []"
proof -
  have le: "length (take m traj) \<le> max_trajectory_len s0" using assms(3,4) by simp
  have ws: "\<forall>a \<in> set (take m traj). well_shaped (num_pitches s0) a"
    using assms(5) by (meson in_set_takeD)
  have n: "length traj = max_trajectory_len s1"
    using assms(4) by (simp add: reset_Inr(2)[OF assms(1)])
  from run_steps_after_reset[OF assms(1) le ws, of calc] state_after_prefix[OF assms(2,3) n]
  show ?thesis by blast
qed

lemma printed_by_save_midi:
  "printed_reward (save_midi calc encode now traj savedir) = fst (save_midi_totals calc traj)"
  "printed_info (save_midi calc encode now traj savedir) = snd (save_midi_totals calc traj)"
  by (simp_all add: save_midi_def Let_def case_prod_beta)

lemma save_midi_prints_running_sums:
  "printed_reward (save_midi calc encode now traj savedir)
     = foldl (+) 0 (map (\<lambda>t. fst (calc traj t)) [1..<length traj])"
  "dict_get (printed_info (save_midi calc encode now traj savedir)) k 0
     = foldl (+) 0 (map snd (filter (\<lambda>p. fst p = k)
         (concat (map (\<lambda>t. snd (calc traj t)) [1..<length traj]))))"
proof -
  show "printed_reward (save_midi calc encode now traj savedir)
     = foldl (+) 0 (map (\<lambda>t. fst (calc traj t)) [1..<length traj])"
    by (simp add: printed_by_save_midi save_midi_totals_eq)
  have pi: "printed_info (save_midi calc encode now traj savedir)
      = fold merge_info (map (\<lambda>t. snd (calc traj t)) [1..<length traj]) []"
    by (simp add: printed_by_save_midi save_midi_totals_eq)
  have "dict_get ([] :: 'b dict) k 0 = 0" by (simp add: dict_get_def)
  then show "dict_get (printed_info (save_midi calc encode now traj savedir)) k 0
     = foldl (+) 0 (map snd (filter (\<lambda>p. fst p = k)
         (concat (map (\<lambda>t. snd (calc traj t)) [1..<length traj]))))"
    unfolding pi by (simp only: dict_get_fold_merge_info)
qed

text \<open>
  Where the two paths part: for a scoring function that reads only the rows below its
  cursor, a live episode on the rows of a complete trajectory accumulates the running
  sum of the rewards of the cursors 1 to \<open>N\<close>, and the loop of \<open>save_midi\<close> stops one
  cursor short of it.
\<close>

lemma live_episode_scores_last_cursor:
  assumes "reset seed s0 = Inr (s1, ob)"
    and "length traj = max_trajectory_len s0"
    and "\<forall>a \<in> set traj. well_shaped (num_pitches s0) a"
    and "reads_prefix calc"
    and "traj \<noteq> []"
  shows "episode_total_reward calc seed s0 traj
           = Inr (printed_reward (save_midi calc encode now traj savedir)
                  + fst (calc traj (length traj)))"
proof -
  let ?N = "length traj"
  have "\<exists>s rs. run_steps calc s1 (take ?N traj) = Inr (s, rs)
     \<and> total_reward s = foldl (+) 0 (map (\<lambda>t. fst (calc traj t)) [1..<Suc ?N])
     \<and> partial_rewards s = fold merge_info (map (\<lambda>t. snd (calc traj t)) [1..<Suc ?N]) []"
    by (rule run_steps_prefix[OF assms(1) assms(4) _ assms(2,3)]) simp
  then obtain s rs where run: "run_steps calc s1 traj = Inr (s, rs)"
    and tot: "total_reward s = foldl (+) 0 (map (\<lambda>t. fst (calc traj t)) [1..<Suc ?N])"
    by auto
  have "[1..<Suc ?N] = [1..<?N] @ [?N]" using assms(5) by (cases traj) simp_all
  with tot have "total_reward s
      = foldl (+) 0 (map (\<lambda>t. fst (calc traj t)) [1..<?N]) + fst (calc traj ?N)"
    by simp
  with run show ?thesis
    by (simp add: episode_total_reward_def assms(1) save_midi_prints_running_sums(1))
qed

text \<open>
  Claim C1. For a complete trajectory of \<open>N\<close> rows, the total reward that \<open>save_midi\<close>
  prints should be what an episode of \<open>N\<close> live calls of \<open>step\<close> on the rows as actions
  has accumulated as \<open>total_reward\<close>. The loop \<open>for t in range(1, len(trajectory))\<close> of
  \<open>save_midi\<close> scores the cursors 1 to \<open>N - 1\<close>, while the live calls score the cursors
  1 to \<open>N\<close>. With the reward 1 at every cursor and the two rows \<open>[0]\<close> and \<open>[0]\<close>, the
  episode accumulates 2 and \<open>save_midi\<close> prints 1.
\<close>

theorem save_midi_misses_last_step:
  "episode_total_reward (\<lambda>traj t. (1::int, [] :: int dict)) None (init 2 1 None) [[0], [0]]
     = Inr 2
   \<and> printed_reward (save_midi (\<lambda>traj t. (1::int, [] :: int dict)) (\<lambda>traj. ())
        \<lparr> tm_year = 2026, tm_mon = 11, tm_mday = 4, tm_hour = 15, tm_min = 39,
          epoch_seconds = 1793806740 \<rparr> [[0], [0]] None) = 1"
proof -
  let ?s0 = "init 2 1 None :: (int, int) env"
  let ?traj = "[[0], [0::int]]"
  let ?calc = "\<lambda>(traj :: ndarray) (t :: nat). (1::int, [] :: int dict)"
  have h0: "reset None ?s0 = Inr (?s0, ([[0], [0]], []))"
    by (simp add: reset_init numeral_eq_Suc)
  have h1: "length ?traj \<le> max_trajectory_len ?s0" by (simp add: init_def)
  have h2: "\<forall>a \<in> set ?traj. well_shaped (num_pitches ?s0) a"
    by (simp add: init_def well_shaped_def fits_int64_def)
  have up: "[0..<length ?traj] = [0, 1]" "[1..<length ?traj] = [1]" by (simp_all add: upt_rec)
  have tot: "total_reward (state_after ?calc ?s0 ?traj) = 2"
    unfolding state_after_def Let_def up by (simp add: result_at_def)
  have live: "episode_total_reward ?calc None ?s0 ?traj = Inr 2"
    unfolding episode_total_reward_def h0 prod.case sum.case
      run_steps_after_reset[OF h0 h1 h2, of ?calc]
    by (simp only: sum.case prod.case tot)
  have "fst (save_midi_totals ?calc ?traj) = 1"
    unfolding save_midi_totals_eq up by simp
  then show ?thesis using live by (simp add: printed_by_save_midi)
qed

end
